theory Spec2Isabelle
  imports Main "HOL-Library.Multiset"
begin

section \<open>JavaScript strings and numbers\<close>

text \<open>
  A JavaScript string is modelled as a \<^typ>\<open>string\<close>: a list of 8-bit code units. Numbers
  are modelled as unbounded integers: every number the extension computes is a line count,
  a sum or a difference of line counts, far below \<open>2^53\<close>, where the arithmetic of doubles
  is exact. \<open>NaN\<close> and \<open>undefined\<close> are the value \<open>None\<close> of an option type.
\<close>

definition tab :: char where
  "tab = CHR 0x09"

definition newline :: char where
  "newline = CHR 0x0A"

definition isWhiteSpace :: "char \<Rightarrow> bool" where
  \<comment> \<open>the white space and line terminators of ECMAScript among the 8-bit code units:
      TAB, LF, VT, FF, CR, SP, NBSP\<close>
  "isWhiteSpace c =
     (c = CHR 0x09 \<or> c = CHR 0x0A \<or> c = CHR 0x0B \<or> c = CHR 0x0C \<or> c = CHR 0x0D
      \<or> c = CHR 0x20 \<or> c = CHR 0xA0)"

definition trimStart :: "string \<Rightarrow> string" where
  "trimStart s = dropWhile isWhiteSpace s"

definition trim :: "string \<Rightarrow> string" where
  \<comment> \<open>\<open>String.prototype.trim\<close>\<close>
  "trim s = rev (dropWhile isWhiteSpace (rev (dropWhile isWhiteSpace s)))"

fun js_split :: "char \<Rightarrow> string \<Rightarrow> string list" where
  \<comment> \<open>\<open>s.split(c)\<close> for a one-character separator: \<open>''''.split(c)\<close> is \<open>['''']\<close>\<close>
  "js_split c [] = [[]]"
| "js_split c (x # xs) =
     (if x = c then [] # js_split c xs
      else (case js_split c xs of [] \<Rightarrow> [[x]] | y # ys \<Rightarrow> (x # y) # ys))"

definition element :: "'a list \<Rightarrow> nat \<Rightarrow> 'a option" where
  \<comment> \<open>\<open>xs[i]\<close>, and what array destructuring yields: \<open>undefined\<close> past the end\<close>
  "element xs i = (if i < length xs then Some (xs ! i) else None)"

definition digitValue :: "char \<Rightarrow> nat option" where
  "digitValue c =
     (let n = (of_char c :: nat) in
      if 48 \<le> n \<and> n \<le> 57 then Some (n - 48)
      else if 97 \<le> n \<and> n \<le> 122 then Some (n - 87)
      else if 65 \<le> n \<and> n \<le> 90 then Some (n - 55)
      else None)"

definition isRadixDigit :: "nat \<Rightarrow> char \<Rightarrow> bool" where
  "isRadixDigit R c = (case digitValue c of None \<Rightarrow> False | Some v \<Rightarrow> v < R)"

definition digitsValue :: "nat \<Rightarrow> string \<Rightarrow> nat" where
  "digitsValue R ds =
     foldl (\<lambda>acc c. case digitValue c of None \<Rightarrow> acc | Some v \<Rightarrow> acc * R + v) 0 ds"

definition parseInt :: "string option \<Rightarrow> int option" where
  \<comment> \<open>\<open>parseInt(x)\<close> with no radix: \<open>undefined\<close> is read as the string \<open>undefined\<close>; leading
      white space is skipped; one sign is taken; a \<open>0x\<close> prefix selects radix 16; the
      longest prefix of digits is the value; no digit at all is \<open>NaN\<close>\<close>
  "parseInt input =
     (let inputString = (case input of None \<Rightarrow> ''undefined'' | Some s \<Rightarrow> s);
          S = trimStart inputString;
          sign = (if take 1 S = ''-'' then - 1 else (1 :: int));
          S1 = (if take 1 S = ''+'' \<or> take 1 S = ''-'' then drop 1 S else S);
          hex = (take 2 S1 = ''0x'' \<or> take 2 S1 = ''0X'');
          R = (if hex then 16 else 10);
          S2 = (if hex then drop 2 S1 else S1);
          Z = takeWhile (isRadixDigit R) S2
      in if Z = [] then None else Some (sign * int (digitsValue R Z)))"

definition orZero :: "int option \<Rightarrow> int" where
  \<comment> \<open>\<open>v || 0\<close>: \<open>NaN\<close> and \<open>0\<close> are falsy\<close>
  "orZero v = (case v of None \<Rightarrow> 0 | Some n \<Rightarrow> if n = 0 then 0 else n)"

fun natString :: "nat \<Rightarrow> string" where
  "natString n =
     (if n < 10 then [char_of (48 + n)]
      else natString (n div 10) @ [char_of (48 + n mod 10)])"

declare natString.simps [simp del]

definition numberString :: "int \<Rightarrow> string" where
  \<comment> \<open>\<open>`${n}`\<close> for an integer\<close>
  "numberString n = (if n < 0 then CHR ''-'' # natString (nat (- n)) else natString (nat n))"

section \<open>Exceptions\<close>

datatype exn = Thrown

definition andThen :: "exn + 'a \<Rightarrow> ('a \<Rightarrow> exn + 'b) \<Rightarrow> exn + 'b" where
  \<comment> \<open>sequencing, and \<open>await\<close>: an exception or a rejection skips the rest\<close>
  "andThen r k = (case r of Inl e \<Rightarrow> Inl e | Inr v \<Rightarrow> k v)"

definition tryCatch :: "exn + 'a \<Rightarrow> (exn \<Rightarrow> exn + 'a) \<Rightarrow> exn + 'a" where
  "tryCatch r h = (case r of Inl e \<Rightarrow> h e | Inr v \<Rightarrow> Inr v)"

section \<open>The collaborators: editor, file system, git\<close>

record StatusFile =
  \<comment> \<open>an entry of \<open>status.files\<close>\<close>
  sf_path :: string
  index :: string
  working_dir :: string

record Env =
  workspaceRoot :: "string option"
    \<comment> \<open>\<open>vscode.workspace.workspaceFolders?.[0]?.uri.fsPath\<close>\<close>
  path_join :: "string \<Rightarrow> string \<Rightarrow> string"
  path_basename :: "string \<Rightarrow> string"
  existsSync :: "string \<Rightarrow> bool"
  readFileSync :: "string \<Rightarrow> exn + string"
  simpleGit :: "string \<Rightarrow> exn + unit"
  checkIsRepo :: "exn + bool"
  git_diff :: "exn + string"
    \<comment> \<open>\<open>git.diff(['--numstat'])\<close>\<close>
  git_diff_cached :: "exn + string"
    \<comment> \<open>\<open>git.diff(['--cached', '--numstat'])\<close>\<close>
  git_status :: "exn + StatusFile list"
    \<comment> \<open>\<open>(await git.status()).files\<close>\<close>
  git_show :: "string \<Rightarrow> exn + string"
    \<comment> \<open>\<open>git.show([arg])\<close>\<close>
  git_log :: "string \<Rightarrow> exn + string list"
    \<comment> \<open>the hashes of \<open>logResult.all\<close> for
        \<open>git.log(['--pretty=format:%H', '--follow', '--', filePath])\<close>, most recent first\<close>

definition rootPath :: "Env \<Rightarrow> string option" where
  \<comment> \<open>the root when it is truthy: \<open>undefined\<close> and the empty string are not\<close>
  "rootPath env =
     (case workspaceRoot env of None \<Rightarrow> None | Some r \<Rightarrow> if r = [] then None else Some r)"

section \<open>Total lines of a file\<close>

definition countLines :: "string \<Rightarrow> int" where
  \<comment> \<open>\<open>content.split('\n').length\<close>\<close>
  "countLines content = int (length (js_split newline content))"

definition getDeletedFileLinesFromGit :: "Env \<Rightarrow> string \<Rightarrow> exn + int" where
  "getDeletedFileLinesFromGit env filePath =
     tryCatch
       (case rootPath env of
          None \<Rightarrow> Inr 0
        | Some root \<Rightarrow>
            andThen (simpleGit env root) (\<lambda>_.
            andThen (git_show env (''HEAD:'' @ filePath)) (\<lambda>showResult.
            Inr (countLines showResult))))
       (\<lambda>error.
          tryCatch
            (case rootPath env of
               None \<Rightarrow> Inr 0
             | Some root \<Rightarrow>
                 andThen (simpleGit env root) (\<lambda>_.
                 andThen (git_log env filePath) (\<lambda>logAll.
                 case logAll of
                   [] \<Rightarrow> Inr 0
                 | lastCommitHash # _ \<Rightarrow>
                     andThen (git_show env (lastCommitHash @ '':'' @ filePath)) (\<lambda>showResult.
                     Inr (countLines showResult)))))
            (\<lambda>innerError. Inr 0))"

definition getFileTotalLines :: "Env \<Rightarrow> string option \<Rightarrow> exn + int" where
  \<comment> \<open>the path is \<open>undefined\<close> when a diff line has fewer than three fields; \<open>path.join\<close>
      throws on it\<close>
  "getFileTotalLines env filePath =
     tryCatch
       (case rootPath env of
          None \<Rightarrow> Inr 0
        | Some root \<Rightarrow>
            (case filePath of
               None \<Rightarrow> Inl Thrown
             | Some p \<Rightarrow>
                 (let fullPath = path_join env root p in
                  if existsSync env fullPath
                  then andThen (readFileSync env fullPath) (\<lambda>content. Inr (countLines content))
                  else getDeletedFileLinesFromGit env p)))
       (\<lambda>error. Inr 0)"

section \<open>One computation pass\<close>

datatype FileStatus = New | Mod | Del

record FileChange =
  path :: "string option"
    \<comment> \<open>\<open>undefined\<close> when the diff line had fewer than three fields\<close>
  linesAdded :: int
  linesDeleted :: int
  netLines :: int
  status :: FileStatus
  totalLines :: int

datatype ErrorTag = NO_WORKSPACE | NO_REPO

record LineStats =
  changesLinesAdded :: int
  changesLinesDeleted :: int
  changesFiles :: "FileChange list"
  stagedLinesAdded :: int
  stagedLinesDeleted :: int
  stagedFiles :: "FileChange list"
  error :: "ErrorTag option"

definition errorStats :: "ErrorTag \<Rightarrow> LineStats" where
  \<comment> \<open>the object returned at lines 326-334 and 342-350\<close>
  "errorStats tag =
     \<lparr>changesLinesAdded = 0, changesLinesDeleted = 0, changesFiles = [],
      stagedLinesAdded = 0, stagedLinesDeleted = 0, stagedFiles = [],
      error = Some tag\<rparr>"

definition determineStatus ::
  "(StatusFile \<Rightarrow> string) \<Rightarrow> StatusFile list \<Rightarrow> string option \<Rightarrow> FileStatus" where
  \<comment> \<open>\<open>slot\<close> is \<open>working_dir\<close> for the unstaged area and \<open>index\<close> for the staged one\<close>
  "determineStatus slot files p =
     (case find (\<lambda>f. Some (sf_path f) = p) files of
        None \<Rightarrow> Mod
      | Some statusFile \<Rightarrow>
          if slot statusFile = ''A'' then New
          else if slot statusFile = ''D'' then Del
          else Mod)"

type_synonym area = "int \<times> int \<times> FileChange list"
  \<comment> \<open>the three variables of one area: lines added, lines deleted, files\<close>

definition processLine ::
  "Env \<Rightarrow> (StatusFile \<Rightarrow> string) \<Rightarrow> StatusFile list \<Rightarrow> area \<Rightarrow> string \<Rightarrow> exn + area" where
  \<comment> \<open>the body of the loops at lines 365-395 (slot \<open>working_dir\<close>) and 421-451
      (slot \<open>index\<close>), which differ in the slot only\<close>
  "processLine env slot files acc line =
     (case acc of (linesAdded_sum, linesDeleted_sum, fileList) \<Rightarrow>
      if trim line = [] then Inr acc
      else
        (let fields = js_split tab line;
             added = element fields 0;
             removed = element fields 1;
             p = element fields 2;
             add = orZero (parseInt added);
             del = orZero (parseInt removed);
             fileStatus = determineStatus slot files p
         in andThen (getFileTotalLines env p) (\<lambda>lineTotal.
            Inr (linesAdded_sum + add, linesDeleted_sum + del,
                 fileList @ [\<lparr>path = p, linesAdded = add, linesDeleted = del,
                              netLines = add - del, status = fileStatus,
                              totalLines = lineTotal\<rparr>]))))"

fun processLines ::
  "Env \<Rightarrow> (StatusFile \<Rightarrow> string) \<Rightarrow> StatusFile list \<Rightarrow> area \<Rightarrow> string list \<Rightarrow> exn + area" where
  "processLines env slot files acc [] = Inr acc"
| "processLines env slot files acc (line # rest) =
     (case processLine env slot files acc line of
        Inl e \<Rightarrow> Inl e
      | Inr acc' \<Rightarrow> processLines env slot files acc' rest)"

definition untrackedChange :: "string \<Rightarrow> int \<Rightarrow> FileChange" where
  \<comment> \<open>the object pushed at lines 403-410\<close>
  "untrackedChange p lineTotal =
     \<lparr>path = Some p, linesAdded = lineTotal, linesDeleted = 0, netLines = lineTotal,
      status = New, totalLines = lineTotal\<rparr>"

fun processUntracked :: "Env \<Rightarrow> area \<Rightarrow> StatusFile list \<Rightarrow> exn + area" where
  \<comment> \<open>the loop at lines 399-411\<close>
  "processUntracked env acc [] = Inr acc"
| "processUntracked env acc (file # rest) =
     (case getFileTotalLines env (Some (sf_path file)) of
        Inl e \<Rightarrow> Inl e
      | Inr lineTotal \<Rightarrow>
          (case acc of (linesAdded_sum, linesDeleted_sum, fileList) \<Rightarrow>
             processUntracked env
               (linesAdded_sum + lineTotal, linesDeleted_sum,
                fileList @ [untrackedChange (sf_path file) lineTotal])
               rest))"

definition buildChanges :: "Env \<Rightarrow> StatusFile list \<Rightarrow> string \<Rightarrow> exn + area" where
  \<comment> \<open>lines 358-411: the unstaged area before it is sorted\<close>
  "buildChanges env files workingDiff =
     andThen (processLines env working_dir files (0, 0, []) (js_split newline (trim workingDiff)))
       (\<lambda>acc. processUntracked env acc (filter (\<lambda>f. working_dir f = ''?'') files))"

definition buildStaged :: "Env \<Rightarrow> StatusFile list \<Rightarrow> string \<Rightarrow> exn + area" where
  \<comment> \<open>lines 415-451: the staged area before it is sorted\<close>
  "buildStaged env files stagedDiff =
     processLines env index files (0, 0, []) (js_split newline (trim stagedDiff))"

definition compareNet :: "FileChange \<Rightarrow> FileChange \<Rightarrow> int" where
  \<comment> \<open>the comparator \<open>(a, b) => b.netLines - a.netLines\<close>\<close>
  "compareNet a b = netLines b - netLines a"

fun insertStable :: "('a \<Rightarrow> 'a \<Rightarrow> int) \<Rightarrow> 'a \<Rightarrow> 'a list \<Rightarrow> 'a list" where
  "insertStable cmp x [] = [x]"
| "insertStable cmp x (y # ys) =
     (if cmp x y \<le> 0 then x # y # ys else y # insertStable cmp x ys)"

fun js_sort :: "('a \<Rightarrow> 'a \<Rightarrow> int) \<Rightarrow> 'a list \<Rightarrow> 'a list" where
  \<comment> \<open>\<open>Array.prototype.sort\<close> with a comparator, which ECMAScript 2019 requires to be
      stable: an element goes before the first later element it does not compare
      greater than\<close>
  "js_sort cmp [] = []"
| "js_sort cmp (x # xs) = insertStable cmp x (js_sort cmp xs)"

definition getLineStats :: "Env \<Rightarrow> LineStats option" where
  \<comment> \<open>\<open>None\<close> is the \<open>null\<close> of the catch block\<close>
  "getLineStats env =
     (case
        (case rootPath env of
           None \<Rightarrow> Inr (errorStats NO_WORKSPACE)
         | Some root \<Rightarrow>
             andThen (simpleGit env root) (\<lambda>_.
             andThen (checkIsRepo env) (\<lambda>isRepo.
             if \<not> isRepo then Inr (errorStats NO_REPO)
             else
               andThen (git_diff env) (\<lambda>workingDiff.
               andThen (git_status env) (\<lambda>files.
               andThen (buildChanges env files workingDiff) (\<lambda>changes.
               andThen (git_diff_cached env) (\<lambda>stagedDiff.
               andThen (buildStaged env files stagedDiff) (\<lambda>staged.
               case changes of (changesAdded, changesDeleted, changesList) \<Rightarrow>
               case staged of (stagedAdded, stagedDeleted, stagedList) \<Rightarrow>
                 Inr \<lparr>changesLinesAdded = changesAdded,
                      changesLinesDeleted = changesDeleted,
                      changesFiles = js_sort compareNet changesList,
                      stagedLinesAdded = stagedAdded,
                      stagedLinesDeleted = stagedDeleted,
                      stagedFiles = js_sort compareNet stagedList,
                      error = None\<rparr>))))))))
      of Inl e \<Rightarrow> None | Inr stats \<Rightarrow> Some stats)"

section \<open>The status bar\<close>

record Display =
  sb_text :: string
    \<comment> \<open>\<open>statusBarItem.text\<close>\<close>
  sb_tooltip :: string
    \<comment> \<open>\<open>statusBarItem.tooltip\<close>\<close>

definition icon :: string where
  "icon = ''$(git-commit) ''"

definition netLine :: "int \<Rightarrow> int \<Rightarrow> int \<Rightarrow> string" where
  \<comment> \<open>the template \<open>${n >= 0 ? '+' : ''}${n} (+${a}-${d})\<close>, which every segment and
      every tooltip row contains\<close>
  "netLine n a d =
     (if n \<ge> 0 then ''+'' else []) @ numberString n
       @ '' (+'' @ numberString a @ ''-'' @ numberString d @ '')''"

definition statusText :: "LineStats \<Rightarrow> string" where
  \<comment> \<open>lines 500-543: the string assigned to \<open>statusBarItem.text\<close> at line 545\<close>
  "statusText stats =
     (let changesNetLines = changesLinesAdded stats - changesLinesDeleted stats;
          stagedNetLines = stagedLinesAdded stats - stagedLinesDeleted stats;
          totalNetLines = changesNetLines + stagedNetLines;
          totalAdd = stagedLinesAdded stats + changesLinesAdded stats;
          totalDel = stagedLinesDeleted stats + changesLinesDeleted stats;
          hasStaged = (stagedNetLines \<noteq> 0);
          hasChanges = (changesNetLines \<noteq> 0);
          singleArea = ((hasStaged \<and> \<not> hasChanges) \<or> (\<not> hasStaged \<and> hasChanges));
          text1 =
            (if singleArea then
               (let areaNetLines = (if hasStaged then stagedNetLines else changesNetLines);
                    areaAdd = (if hasStaged then stagedLinesAdded stats
                               else changesLinesAdded stats);
                    areaDel = (if hasStaged then stagedLinesDeleted stats
                               else changesLinesDeleted stats)
                in icon @ netLine areaNetLines areaAdd areaDel)
             else
               (let t1 = (if stagedNetLines \<noteq> 0
                          then icon @ ''Staged:''
                            @ netLine stagedNetLines (stagedLinesAdded stats)
                                (stagedLinesDeleted stats)
                          else icon);
                    t2 = (if changesNetLines \<noteq> 0
                          then (if stagedNetLines \<noteq> 0 then t1 @ '', '' else t1)
                            @ ''Changes:''
                            @ netLine changesNetLines (changesLinesAdded stats)
                                (changesLinesDeleted stats)
                          else t1)
                in if stagedNetLines \<noteq> 0 \<or> changesNetLines \<noteq> 0
                   then t2 @ '', Total:'' @ netLine totalNetLines totalAdd totalDel
                   else t2))
      in if stagedNetLines = 0 \<and> changesNetLines = 0 then text1 @ ''Clean'' else text1)"

definition statusName :: "FileStatus \<Rightarrow> string" where
  "statusName s = (case s of New \<Rightarrow> ''New'' | Mod \<Rightarrow> ''Mod'' | Del \<Rightarrow> ''Del'')"

definition fileRow :: "Env \<Rightarrow> FileChange \<Rightarrow> exn + string" where
  \<comment> \<open>lines 552-553 and 560-561; \<open>path.basename\<close> throws on \<open>undefined\<close>\<close>
  "fileRow env file =
     (case path file of
        None \<Rightarrow> Inl Thrown
      | Some p \<Rightarrow>
          Inr (''  '' @ netLine (netLines file) (linesAdded file) (linesDeleted file)
               @ ''='' @ numberString (totalLines file)
               @ '' ['' @ statusName (status file) @ ''] '' @ path_basename env p))"

fun fileRows :: "Env \<Rightarrow> FileChange list \<Rightarrow> exn + string list" where
  "fileRows env [] = Inr []"
| "fileRows env (file # rest) =
     (case fileRow env file of
        Inl e \<Rightarrow> Inl e
      | Inr row \<Rightarrow> (case fileRows env rest of Inl e \<Rightarrow> Inl e | Inr rows \<Rightarrow> Inr (row # rows)))"

fun js_join :: "string \<Rightarrow> string list \<Rightarrow> string" where
  "js_join sep [] = []"
| "js_join sep [x] = x"
| "js_join sep (x # y # ys) = x @ sep @ js_join sep (y # ys)"

definition tooltipText :: "Env \<Rightarrow> LineStats \<Rightarrow> exn + string" where
  \<comment> \<open>lines 548-566\<close>
  "tooltipText env stats =
     (let changesNetLines = changesLinesAdded stats - changesLinesDeleted stats;
          stagedNetLines = stagedLinesAdded stats - stagedLinesDeleted stats;
          totalNetLines = changesNetLines + stagedNetLines;
          totalAdd = stagedLinesAdded stats + changesLinesAdded stats;
          totalDel = stagedLinesDeleted stats + changesLinesDeleted stats
      in andThen (fileRows env (stagedFiles stats)) (\<lambda>stagedRows.
         andThen (fileRows env (changesFiles stats)) (\<lambda>changesRows.
         Inr (js_join [newline]
               (((''Staged: ''
                    @ netLine stagedNetLines (stagedLinesAdded stats) (stagedLinesDeleted stats))
                  # stagedRows)
                @ ((newline # ''Changes: ''
                    @ netLine changesNetLines (changesLinesAdded stats)
                        (changesLinesDeleted stats))
                  # changesRows)
                @ [newline # ''Total: '' @ netLine totalNetLines totalAdd totalDel])))))"

definition render :: "Env \<Rightarrow> LineStats option \<Rightarrow> Display" where
  \<comment> \<open>lines 481-571: the \<open>then\<close> callback, and the \<open>catch\<close> callback where it throws\<close>
  "render env result =
     (case result of
        None \<Rightarrow>
          \<lparr>sb_text = icon @ ''Git: Error'', sb_tooltip = ''Error getting git status''\<rparr>
      | Some stats \<Rightarrow>
          if error stats = Some NO_WORKSPACE then
            \<lparr>sb_text = icon @ ''Git: No workspace'', sb_tooltip = ''No workspace folder found''\<rparr>
          else if error stats = Some NO_REPO then
            \<lparr>sb_text = icon @ ''Git: No repo'', sb_tooltip = ''No git repository found''\<rparr>
          else
            (case tooltipText env stats of
               Inl e \<Rightarrow>
                 \<lparr>sb_text = icon @ ''Git: Error'', sb_tooltip = ''Error updating git status''\<rparr>
             | Inr tip \<Rightarrow> \<lparr>sb_text = statusText stats, sb_tooltip = tip\<rparr>))"

definition updateStatusBar :: "Env \<Rightarrow> Display" where
  \<comment> \<open>what the timer callback of \<open>updateStatusBar\<close> leaves on the status bar\<close>
  "updateStatusBar env = render env (getLineStats env)"

section \<open>The count fields of a diff line\<close>


section \<open>Concrete environments\<close>

definition baseEnv :: Env where
  \<comment> \<open>a repository at \<open>/w\<close> with nothing changed, nothing on disk and no history\<close>
  "baseEnv =
     \<lparr>workspaceRoot = Some ''/w'',
      path_join = (\<lambda>a b. a @ ''/'' @ b),
      path_basename = (\<lambda>p. last (js_split CHR ''/'' p)),
      existsSync = (\<lambda>p. False),
      readFileSync = (\<lambda>p. Inl Thrown),
      simpleGit = (\<lambda>r. Inr ()),
      checkIsRepo = Inr True,
      git_diff = Inr [],
      git_diff_cached = Inr [],
      git_status = Inr [],
      git_show = (\<lambda>a. Inl Thrown),
      git_log = (\<lambda>p. Inl Thrown)\<rparr>"


definition headEnv :: Env where
  \<comment> \<open>\<open>gone.txt\<close> is not on disk; in \<open>HEAD\<close> it has 41 lines that end in a newline and a
      last one that does not\<close>
  "headEnv =
     baseEnv
       \<lparr>git_show := (\<lambda>a. if a = ''HEAD:gone.txt''
                          then Inr (concat (replicate 41 ''x\<newline>'') @ ''x'')
                          else Inl Thrown)\<rparr>"

definition passDiff :: string where
  \<comment> \<open>three unstaged files, of which two have the same net lines\<close>
  "passDiff = ''3'' @ [tab] @ ''2'' @ [tab] @ ''a.ts'' @ [newline]
            @ ''10'' @ [tab] @ ''2'' @ [tab] @ ''b.ts'' @ [newline]
            @ ''1'' @ [tab] @ ''0'' @ [tab] @ ''c.ts'' @ [newline]"

definition passStagedDiff :: string where
  \<comment> \<open>a staged new file and a staged binary file\<close>
  "passStagedDiff = ''5'' @ [tab] @ ''3'' @ [tab] @ ''s.ts'' @ [newline]
                  @ ''-'' @ [tab] @ ''-'' @ [tab] @ ''img.png'' @ [newline]"

definition passFiles :: "StatusFile list" where
  "passFiles =
     [\<lparr>sf_path = ''a.ts'', index = '' '', working_dir = ''M''\<rparr>,
      \<lparr>sf_path = ''b.ts'', index = '' '', working_dir = ''M''\<rparr>,
      \<lparr>sf_path = ''c.ts'', index = '' '', working_dir = ''D''\<rparr>,
      \<lparr>sf_path = ''new.txt'', index = ''?'', working_dir = ''?''\<rparr>,
      \<lparr>sf_path = ''s.ts'', index = ''A'', working_dir = '' ''\<rparr>,
      \<lparr>sf_path = ''img.png'', index = ''M'', working_dir = '' ''\<rparr>]"

definition passEnv :: Env where
  \<comment> \<open>the diffs and the status above, and the untracked \<open>new.txt\<close> of two lines on disk\<close>
  "passEnv =
     baseEnv
       \<lparr>existsSync := (\<lambda>p. p = ''/w/new.txt''),
        readFileSync := (\<lambda>p. if p = ''/w/new.txt'' then Inr ''x\<newline>y'' else Inl Thrown),
        git_diff := Inr passDiff,
        git_diff_cached := Inr passStagedDiff,
        git_status := Inr passFiles\<rparr>"

definition fileA :: FileChange where
  "fileA = \<lparr>path = Some ''a.ts'', linesAdded = 3, linesDeleted = 2, netLines = 1,
            status = Mod, totalLines = 0\<rparr>"

definition fileB :: FileChange where
  "fileB = \<lparr>path = Some ''b.ts'', linesAdded = 10, linesDeleted = 2, netLines = 8,
            status = Mod, totalLines = 0\<rparr>"

definition fileC :: FileChange where
  "fileC = \<lparr>path = Some ''c.ts'', linesAdded = 1, linesDeleted = 0, netLines = 1,
            status = Del, totalLines = 0\<rparr>"

definition fileNew :: FileChange where
  "fileNew = \<lparr>path = Some ''new.txt'', linesAdded = 2, linesDeleted = 0, netLines = 2,
              status = New, totalLines = 2\<rparr>"

definition fileS :: FileChange where
  "fileS = \<lparr>path = Some ''s.ts'', linesAdded = 5, linesDeleted = 3, netLines = 2,
            status = New, totalLines = 0\<rparr>"

definition fileImg :: FileChange where
  "fileImg = \<lparr>path = Some ''img.png'', linesAdded = 0, linesDeleted = 0, netLines = 0,
              status = Mod, totalLines = 0\<rparr>"

definition passStats :: LineStats where
  \<comment> \<open>what the pass returns in \<open>passEnv\<close>\<close>
  "passStats =
     \<lparr>changesLinesAdded = 16, changesLinesDeleted = 4,
      changesFiles = [fileB, fileNew, fileA, fileC],
      stagedLinesAdded = 5, stagedLinesDeleted = 3,
      stagedFiles = [fileS, fileImg],
      error = None\<rparr>"









definition scenarioB :: Env where
  \<comment> \<open>one unstaged modified file with 15 lines added and 5 deleted, nothing staged\<close>
  "scenarioB =
     baseEnv
       \<lparr>git_diff := Inr (''15'' @ [tab] @ ''5'' @ [tab] @ ''src/app.ts'' @ [newline]),
        git_status := Inr [\<lparr>sf_path = ''src/app.ts'', index = '' '', working_dir = ''M''\<rparr>]\<rparr>"

definition statsB :: LineStats where
  "statsB =
     \<lparr>changesLinesAdded = 15, changesLinesDeleted = 5,
      changesFiles = [\<lparr>path = Some ''src/app.ts'', linesAdded = 15, linesDeleted = 5,
                        netLines = 10, status = Mod, totalLines = 0\<rparr>],
      stagedLinesAdded = 0, stagedLinesDeleted = 0, stagedFiles = [], error = None\<rparr>"

definition scenarioC :: Env where
  \<comment> \<open>a staged file with 5 lines added and 3 deleted, an unstaged file with 10 and 2\<close>
  "scenarioC =
     baseEnv
       \<lparr>git_diff := Inr (''10'' @ [tab] @ ''2'' @ [tab] @ ''b.ts'' @ [newline]),
        git_diff_cached := Inr (''5'' @ [tab] @ ''3'' @ [tab] @ ''a.ts'' @ [newline]),
        git_status := Inr [\<lparr>sf_path = ''a.ts'', index = ''M'', working_dir = '' ''\<rparr>,
                           \<lparr>sf_path = ''b.ts'', index = '' '', working_dir = ''M''\<rparr>]\<rparr>"

definition statsC :: LineStats where
  "statsC =
     \<lparr>changesLinesAdded = 10, changesLinesDeleted = 2,
      changesFiles = [\<lparr>path = Some ''b.ts'', linesAdded = 10, linesDeleted = 2,
                        netLines = 8, status = Mod, totalLines = 0\<rparr>],
      stagedLinesAdded = 5, stagedLinesDeleted = 3,
      stagedFiles = [\<lparr>path = Some ''a.ts'', linesAdded = 5, linesDeleted = 3,
                       netLines = 2, status = Mod, totalLines = 0\<rparr>],
      error = None\<rparr>"

definition cleanStats :: LineStats where
  \<comment> \<open>what the pass returns in \<open>baseEnv\<close>, a clean repository\<close>
  "cleanStats =
     \<lparr>changesLinesAdded = 0, changesLinesDeleted = 0, changesFiles = [],
      stagedLinesAdded = 0, stagedLinesDeleted = 0, stagedFiles = [], error = None\<rparr>"

definition balancedEnv :: Env where
  \<comment> \<open>one unstaged modified file with as many lines added as deleted\<close>
  "balancedEnv =
     baseEnv
       \<lparr>git_diff := Inr (''5'' @ [tab] @ ''5'' @ [tab] @ ''f.ts'' @ [newline]),
        git_status := Inr [\<lparr>sf_path = ''f.ts'', index = '' '', working_dir = ''M''\<rparr>]\<rparr>"

definition balancedStats :: LineStats where
  "balancedStats =
     \<lparr>changesLinesAdded = 5, changesLinesDeleted = 5,
      changesFiles = [\<lparr>path = Some ''f.ts'', linesAdded = 5, linesDeleted = 5,
                        netLines = 0, status = Mod, totalLines = 0\<rparr>],
      stagedLinesAdded = 0, stagedLinesDeleted = 0, stagedFiles = [], error = None\<rparr>"

definition noWorkspaceEnv :: Env where
  "noWorkspaceEnv = baseEnv \<lparr>workspaceRoot := None\<rparr>"

definition noRepoEnv :: Env where
  "noRepoEnv = baseEnv \<lparr>checkIsRepo := Inr False\<rparr>"

definition failingEnv :: Env where
  \<comment> \<open>the status listing fails\<close>
  "failingEnv = baseEnv \<lparr>git_status := Inl Thrown\<rparr>"

section \<open>Strings\<close>

lemma length_js_split: "length (js_split c s) = Suc (count_list s c)"
  by (induction s) (auto split: list.splits)

lemma countLines_newlines: "countLines s = 1 + int (count_list s newline)"
  by (simp add: countLines_def length_js_split)

lemma countLines_trailing_newline: "countLines (s @ [newline]) = countLines s + 1"
  by (simp add: countLines_newlines)

section \<open>The resolver of total lines\<close>

lemma tryCatch_zero: "\<exists>n. tryCatch r (\<lambda>e. Inr (0::int)) = Inr n"
  by (cases r) (simp_all add: tryCatch_def)

lemma getFileTotalLines_returns: "\<exists>n. getFileTotalLines env fp = Inr n"
  unfolding getFileTotalLines_def by (rule tryCatch_zero)

lemma getDeleted_returns: "\<exists>n. getDeletedFileLinesFromGit env p = Inr n"
  unfolding getDeletedFileLinesFromGit_def
  by (cases "rootPath env") (auto simp: tryCatch_def andThen_def split: sum.splits list.splits)


lemma total_not_on_disk:
  "rootPath env = Some root \<Longrightarrow> \<not> existsSync env (path_join env root p) \<Longrightarrow>
   getFileTotalLines env (Some p) = getDeletedFileLinesFromGit env p"
  using getDeleted_returns [of env p]
  by (auto simp add: getFileTotalLines_def tryCatch_def)

lemma deleted_from_HEAD:
  "rootPath env = Some root \<Longrightarrow> simpleGit env root = Inr () \<Longrightarrow>
   git_show env (''HEAD:'' @ p) = Inr c \<Longrightarrow>
   getDeletedFileLinesFromGit env p = Inr (countLines c)"
  by (simp add: getDeletedFileLinesFromGit_def tryCatch_def andThen_def)





text \<open>
  Claim C8. Lines are counted by splitting the content at the newline characters, so a
  trailing empty segment counts as a line. For a deleted file that has no copy on disk and
  whose content in \<open>HEAD\<close> counts 42 lines in this way, the resolver returns 42, through
  the fallback that reads the history, and as a value: nothing is thrown.
\<close>

theorem deleted_file_in_HEAD_42_lines:
  assumes "rootPath env = Some root"
    and "\<not> existsSync env (path_join env root p)"
    and "simpleGit env root = Inr ()"
    and "git_show env (''HEAD:'' @ p) = Inr content"
    and "length (js_split newline content) = 42"
  shows "getFileTotalLines env (Some p) = Inr 42
     \<and> getDeletedFileLinesFromGit env p = Inr 42"
  using assms
  by (simp add: total_not_on_disk deleted_from_HEAD countLines_def)

theorem deleted_file_in_HEAD_42_lines_witness:
  "rootPath headEnv = Some ''/w''
   \<and> \<not> existsSync headEnv (path_join headEnv ''/w'' ''gone.txt'')
   \<and> simpleGit headEnv ''/w'' = Inr ()
   \<and> git_show headEnv (''HEAD:'' @ ''gone.txt'') = Inr (concat (replicate 41 ''x\<newline>'') @ ''x'')
   \<and> length (js_split newline (concat (replicate 41 ''x\<newline>'') @ ''x'')) = 42
   \<and> getFileTotalLines headEnv (Some ''gone.txt'') = Inr 42
   \<and> getDeletedFileLinesFromGit headEnv ''gone.txt'' = Inr 42"
proof -
  have root: "rootPath headEnv = Some ''/w''"
    by (simp add: headEnv_def baseEnv_def rootPath_def)
  have gone: "\<not> existsSync headEnv (path_join headEnv ''/w'' ''gone.txt'')"
    by (simp add: headEnv_def baseEnv_def)
  have git: "simpleGit headEnv ''/w'' = Inr ()"
    by (simp add: headEnv_def baseEnv_def)
  have head: "git_show headEnv (''HEAD:'' @ ''gone.txt'')
      = Inr (concat (replicate 41 ''x\<newline>'') @ ''x'')"
    by (simp add: headEnv_def baseEnv_def)
  have n: "length (js_split newline (concat (replicate 41 ''x\<newline>'') @ ''x'')) = 42"
    by code_simp
  from deleted_file_in_HEAD_42_lines [OF root gone git head n] root gone git head n
  show ?thesis by simp
qed

section \<open>The loops of a pass\<close>

lemma processLine_returns: "\<exists>acc'. processLine env slot files acc line = Inr acc'"
proof -
  obtain a d fs where acc: "acc = (a, d, fs)" by (metis prod_cases3)
  obtain n where "getFileTotalLines env (element (js_split tab line) 2) = Inr n"
    using getFileTotalLines_returns by blast
  then show ?thesis
    by (simp add: processLine_def acc andThen_def Let_def)
qed

lemma processLines_returns: "\<exists>acc'. processLines env slot files acc lines = Inr acc'"
proof (induction lines arbitrary: acc)
  case Nil
  show ?case by (metis processLines.simps(1))
next
  case (Cons line rest)
  obtain acc1 where "processLine env slot files acc line = Inr acc1"
    using processLine_returns by blast
  with Cons.IH [of acc1] show ?case by simp
qed

lemma processUntracked_returns: "\<exists>acc'. processUntracked env acc untracked = Inr acc'"
proof (induction untracked arbitrary: acc)
  case Nil
  show ?case by (metis processUntracked.simps(1))
next
  case (Cons entry rest)
  obtain a d fs where acc: "acc = (a, d, fs)" by (metis prod_cases3)
  obtain n where "getFileTotalLines env (Some (sf_path entry)) = Inr n"
    using getFileTotalLines_returns by blast
  with Cons.IH show ?case by (simp add: acc)
qed

lemma processLine_shape:
  assumes "trim line \<noteq> []"
  shows "\<exists>n. getFileTotalLines env (element (js_split tab line) 2) = Inr n
     \<and> processLine env slot files (a, d, fs) line =
         Inr (a + orZero (parseInt (element (js_split tab line) 0)),
              d + orZero (parseInt (element (js_split tab line) 1)),
              fs @ [\<lparr>path = element (js_split tab line) 2,
                      linesAdded = orZero (parseInt (element (js_split tab line) 0)),
                      linesDeleted = orZero (parseInt (element (js_split tab line) 1)),
                      netLines = orZero (parseInt (element (js_split tab line) 0))
                        - orZero (parseInt (element (js_split tab line) 1)),
                      status = determineStatus slot files (element (js_split tab line) 2),
                      totalLines = n\<rparr>])"
proof -
  obtain n where "getFileTotalLines env (element (js_split tab line) 2) = Inr n"
    using getFileTotalLines_returns by blast
  with assms show ?thesis
    by (simp add: processLine_def andThen_def Let_def)
qed

lemma processLine_sums:
  assumes "processLine env slot files (a, d, fs) line = Inr (a', d', fs')"
    and "a = sum_list (map linesAdded fs)"
    and "d = sum_list (map linesDeleted fs)"
  shows "a' = sum_list (map linesAdded fs') \<and> d' = sum_list (map linesDeleted fs')"
proof (cases "trim line = []")
  case True
  with assms show ?thesis by (auto simp add: processLine_def)
next
  case False
  from processLine_shape [OF False, of env slot files a d fs] assms
  show ?thesis by auto
qed

lemma processLines_sums:
  assumes "processLines env slot files (a, d, fs) lines = Inr (a', d', fs')"
    and "a = sum_list (map linesAdded fs)"
    and "d = sum_list (map linesDeleted fs)"
  shows "a' = sum_list (map linesAdded fs') \<and> d' = sum_list (map linesDeleted fs')"
  using assms
proof (induction lines arbitrary: a d fs)
  case Nil
  then show ?case by auto
next
  case (Cons line rest)
  obtain a1 d1 fs1 where step: "processLine env slot files (a, d, fs) line = Inr (a1, d1, fs1)"
    using processLine_returns [of env slot files "(a, d, fs)" line] by (metis prod_cases3)
  from processLine_sums [OF step Cons.prems(2) Cons.prems(3)]
  have sums: "a1 = sum_list (map linesAdded fs1)" "d1 = sum_list (map linesDeleted fs1)"
    by simp_all
  from Cons.prems(1) step
  have "processLines env slot files (a1, d1, fs1) rest = Inr (a', d', fs')" by simp
  from Cons.IH [OF this sums] show ?case .
qed

lemma processUntracked_sums:
  assumes "processUntracked env (a, d, fs) untracked = Inr (a', d', fs')"
    and "a = sum_list (map linesAdded fs)"
    and "d = sum_list (map linesDeleted fs)"
  shows "a' = sum_list (map linesAdded fs') \<and> d' = sum_list (map linesDeleted fs')"
  using assms
proof (induction untracked arbitrary: a d fs)
  case Nil
  then show ?case by auto
next
  case (Cons entry rest)
  obtain n where n: "getFileTotalLines env (Some (sf_path entry)) = Inr n"
    using getFileTotalLines_returns by blast
  from Cons.prems(1) n
  have "processUntracked env (a + n, d, fs @ [untrackedChange (sf_path entry) n]) rest
      = Inr (a', d', fs')"
    by simp
  then show ?case
    by (rule Cons.IH) (simp_all add: Cons.prems(2,3) untrackedChange_def)
qed



section \<open>The sort\<close>

lemma mset_insertStable: "mset (insertStable cmp x ys) = add_mset x (mset ys)"
  by (induction ys) auto

lemma mset_js_sort: "mset (js_sort cmp xs) = mset xs"
  by (induction xs) (auto simp: mset_insertStable)


lemma sum_list_js_sort:
  fixes f :: "'a \<Rightarrow> int"
  shows "sum_list (map f (js_sort cmp xs)) = sum_list (map f xs)"
proof -
  have "mset (map f (js_sort cmp xs)) = mset (map f xs)"
    by (simp add: mset_js_sort)
  then show ?thesis by (metis sum_mset_sum_list)
qed

lemma set_insertStable: "set (insertStable cmp x ys) = insert x (set ys)"
  by (induction ys) auto

lemma compareNet_le: "compareNet x y \<le> 0 \<longleftrightarrow> netLines y \<le> netLines x"
  by (simp add: compareNet_def)

lemma sorted_insertStable:
  "sorted_wrt (\<lambda>a b. netLines b \<le> netLines a) ys \<Longrightarrow>
   sorted_wrt (\<lambda>a b. netLines b \<le> netLines a) (insertStable compareNet x ys)"
proof (induction ys)
  case Nil
  then show ?case by simp
next
  case (Cons y ys)
  then show ?case
    by (auto simp: compareNet_le set_insertStable)
qed

lemma sorted_js_sort:
  "sorted_wrt (\<lambda>a b. netLines b \<le> netLines a) (js_sort compareNet xs)"
  by (induction xs) (simp_all add: sorted_insertStable)

lemma adjacent_js_sort:
  assumes "Suc i < length (js_sort compareNet xs)"
  shows "netLines (js_sort compareNet xs ! Suc i) \<le> netLines (js_sort compareNet xs ! i)"
  using sorted_js_sort [of xs] assms
  by (simp add: sorted_wrt_iff_nth_less)

lemma filter_insertStable:
  "filter (\<lambda>f. netLines f = k) (insertStable compareNet x ys) =
     (if netLines x = k then x # filter (\<lambda>f. netLines f = k) ys
      else filter (\<lambda>f. netLines f = k) ys)"
  by (induction ys) (auto simp: compareNet_le)

lemma stable_js_sort:
  "filter (\<lambda>f. netLines f = k) (js_sort compareNet xs) = filter (\<lambda>f. netLines f = k) xs"
  by (induction xs) (simp_all add: filter_insertStable)

section \<open>What a pass returns\<close>

lemma getLineStats_no_root:
  "rootPath env = None \<Longrightarrow> getLineStats env = Some (errorStats NO_WORKSPACE)"
  by (simp add: getLineStats_def)

lemma getLineStats_no_repo:
  "rootPath env = Some root \<Longrightarrow> simpleGit env root = Inr () \<Longrightarrow>
   checkIsRepo env = Inr False \<Longrightarrow> getLineStats env = Some (errorStats NO_REPO)"
  by (simp add: getLineStats_def andThen_def)

lemma getLineStats_success:
  assumes "rootPath env = Some root" and "simpleGit env root = Inr ()"
    and "checkIsRepo env = Inr True" and "git_diff env = Inr workingDiff"
    and "git_status env = Inr files"
    and "buildChanges env files workingDiff = Inr (ca, cd, cl)"
    and "git_diff_cached env = Inr stagedDiff"
    and "buildStaged env files stagedDiff = Inr (sa, sd, sl)"
  shows "getLineStats env =
     Some \<lparr>changesLinesAdded = ca, changesLinesDeleted = cd,
           changesFiles = js_sort compareNet cl,
           stagedLinesAdded = sa, stagedLinesDeleted = sd,
           stagedFiles = js_sort compareNet sl, error = None\<rparr>"
  using assms by (simp add: getLineStats_def andThen_def)

lemma buildChanges_returns: "\<exists>acc. buildChanges env files workingDiff = Inr acc"
proof -
  obtain acc1 where
    "processLines env working_dir files (0, 0, []) (js_split newline (trim workingDiff)) = Inr acc1"
    using processLines_returns by blast
  moreover obtain acc2 where
    "processUntracked env acc1 (filter (\<lambda>f. working_dir f = ''?'') files) = Inr acc2"
    using processUntracked_returns by blast
  ultimately have "buildChanges env files workingDiff = Inr acc2"
    by (simp add: buildChanges_def andThen_def)
  then show ?thesis ..
qed

lemma buildStaged_returns: "\<exists>acc. buildStaged env files stagedDiff = Inr acc"
  unfolding buildStaged_def by (rule processLines_returns)

lemma getLineStats_cases:
  assumes "getLineStats env = Some stats"
  shows "(rootPath env = None \<and> stats = errorStats NO_WORKSPACE)
     \<or> (\<exists>root. rootPath env = Some root \<and> simpleGit env root = Inr ()
          \<and> checkIsRepo env = Inr False \<and> stats = errorStats NO_REPO)
     \<or> (\<exists>root workingDiff files ca cd cl stagedDiff sa sd sl.
          rootPath env = Some root \<and> simpleGit env root = Inr ()
          \<and> checkIsRepo env = Inr True \<and> git_diff env = Inr workingDiff
          \<and> git_status env = Inr files
          \<and> buildChanges env files workingDiff = Inr (ca, cd, cl)
          \<and> git_diff_cached env = Inr stagedDiff
          \<and> buildStaged env files stagedDiff = Inr (sa, sd, sl)
          \<and> stats = \<lparr>changesLinesAdded = ca, changesLinesDeleted = cd,
                       changesFiles = js_sort compareNet cl,
                       stagedLinesAdded = sa, stagedLinesDeleted = sd,
                       stagedFiles = js_sort compareNet sl, error = None\<rparr>)"
proof (cases "rootPath env")
  case None
  with assms show ?thesis by (simp add: getLineStats_no_root)
next
  case (Some root)
  show ?thesis
  proof (cases "simpleGit env root")
    case (Inl e)
    with assms Some show ?thesis by (simp add: getLineStats_def andThen_def)
  next
    case git: (Inr u)
    show ?thesis
    proof (cases "checkIsRepo env")
      case (Inl e)
      with assms Some git show ?thesis by (simp add: getLineStats_def andThen_def)
    next
      case repo: (Inr isRepo)
      show ?thesis
      proof (cases isRepo)
        case False
        with assms Some git repo show ?thesis
          by (simp add: getLineStats_no_repo)
      next
        case True
        show ?thesis
        proof (cases "git_diff env")
          case (Inl e)
          with assms Some git repo True show ?thesis
            by (simp add: getLineStats_def andThen_def)
        next
          case wd: (Inr workingDiff)
          show ?thesis
          proof (cases "git_status env")
            case (Inl e)
            with assms Some git repo True wd show ?thesis
              by (simp add: getLineStats_def andThen_def)
          next
            case st: (Inr files)
            obtain ca cd cl where ch: "buildChanges env files workingDiff = Inr (ca, cd, cl)"
              using buildChanges_returns [of env files workingDiff] by (metis prod_cases3)
            show ?thesis
            proof (cases "git_diff_cached env")
              case (Inl e)
              with assms Some git repo True wd st ch show ?thesis
                by (simp add: getLineStats_def andThen_def)
            next
              case sdiff: (Inr stagedDiff)
              obtain sa sd sl where sg: "buildStaged env files stagedDiff = Inr (sa, sd, sl)"
                using buildStaged_returns [of env files stagedDiff] by (metis prod_cases3)
              from getLineStats_success [OF Some _ _ wd st ch sdiff sg] git repo True assms
              have "stats = \<lparr>changesLinesAdded = ca, changesLinesDeleted = cd,
                       changesFiles = js_sort compareNet cl,
                       stagedLinesAdded = sa, stagedLinesDeleted = sd,
                       stagedFiles = js_sort compareNet sl, error = None\<rparr>"
                by simp
              with Some git repo True wd st ch sdiff sg show ?thesis by simp
            qed
          qed
        qed
      qed
    qed
  qed
qed

lemma buildChanges_sums:
  assumes "buildChanges env files workingDiff = Inr (a, d, fs)"
  shows "a = sum_list (map linesAdded fs) \<and> d = sum_list (map linesDeleted fs)"
proof -
  obtain a1 d1 fs1 where
    lines: "processLines env working_dir files (0, 0, []) (js_split newline (trim workingDiff))
      = Inr (a1, d1, fs1)"
    using processLines_returns
      [of env working_dir files "(0, 0, [])" "js_split newline (trim workingDiff)"]
    by (metis prod_cases3)
  from processLines_sums [OF lines]
  have sums: "a1 = sum_list (map linesAdded fs1)" "d1 = sum_list (map linesDeleted fs1)"
    by simp_all
  from assms lines
  have "processUntracked env (a1, d1, fs1) (filter (\<lambda>f. working_dir f = ''?'') files)
      = Inr (a, d, fs)"
    by (simp add: buildChanges_def andThen_def)
  from processUntracked_sums [OF this sums] show ?thesis .
qed

lemma buildStaged_sums:
  assumes "buildStaged env files stagedDiff = Inr (a, d, fs)"
  shows "a = sum_list (map linesAdded fs) \<and> d = sum_list (map linesDeleted fs)"
  using assms unfolding buildStaged_def
  by (rule processLines_sums) simp_all


section \<open>Properties of a pass\<close>

lemma getLineStats_sums:
  assumes "getLineStats env = Some stats"
  shows "changesLinesAdded stats = sum_list (map linesAdded (changesFiles stats))
     \<and> changesLinesDeleted stats = sum_list (map linesDeleted (changesFiles stats))
     \<and> stagedLinesAdded stats = sum_list (map linesAdded (stagedFiles stats))
     \<and> stagedLinesDeleted stats = sum_list (map linesDeleted (stagedFiles stats))"
proof -
  from getLineStats_cases [OF assms] consider
    (err) tag where "stats = errorStats tag"
  | (ok) workingDiff files ca cd cl stagedDiff sa sd sl where
      "buildChanges env files workingDiff = Inr (ca, cd, cl)"
      "buildStaged env files stagedDiff = Inr (sa, sd, sl)"
      "stats = \<lparr>changesLinesAdded = ca, changesLinesDeleted = cd,
                 changesFiles = js_sort compareNet cl,
                 stagedLinesAdded = sa, stagedLinesDeleted = sd,
                 stagedFiles = js_sort compareNet sl, error = None\<rparr>"
    by blast
  then show ?thesis
  proof cases
    case err
    then show ?thesis by (simp add: errorStats_def)
  next
    case ok
    from buildChanges_sums [OF ok(1)] buildStaged_sums [OF ok(2)] ok(3)
    show ?thesis by (simp add: sum_list_js_sort)
  qed
qed

text \<open>
  Claim C1. In every LineStats that a pass returns, \<open>changesLinesAdded\<close> is the sum of
  \<open>linesAdded\<close> over \<open>changesFiles\<close>, \<open>changesLinesDeleted\<close> the sum of \<open>linesDeleted\<close>
  over \<open>changesFiles\<close>, and the same two identities hold for the staged area. The
  untracked files are among \<open>changesFiles\<close>, each with its total lines as \<open>linesAdded\<close>,
  so their contribution is part of both sides.
\<close>

theorem sums_are_sums_over_files:
  assumes "getLineStats env = Some stats"
  shows "changesLinesAdded stats = sum_list (map linesAdded (changesFiles stats))
     \<and> changesLinesDeleted stats = sum_list (map linesDeleted (changesFiles stats))
     \<and> stagedLinesAdded stats = sum_list (map linesAdded (stagedFiles stats))
     \<and> stagedLinesDeleted stats = sum_list (map linesDeleted (stagedFiles stats))"
  using assms by (rule getLineStats_sums)

theorem sums_are_sums_over_files_witness:
  "getLineStats passEnv = Some passStats
   \<and> changesLinesAdded passStats = 16
   \<and> sum_list (map linesAdded (changesFiles passStats)) = 16
   \<and> changesLinesDeleted passStats = sum_list (map linesDeleted (changesFiles passStats))
   \<and> stagedLinesAdded passStats = sum_list (map linesAdded (stagedFiles passStats))
   \<and> stagedLinesDeleted passStats = sum_list (map linesDeleted (stagedFiles passStats))"
proof -
  have run: "getLineStats passEnv = Some passStats"
    by code_simp
  have "changesLinesAdded passStats = 16"
    by (simp add: passStats_def)
  with sums_are_sums_over_files [OF run] run show ?thesis by simp
qed

text \<open>
  Claim C2. In every LineStats that a pass returns, \<open>changesFiles\<close> and \<open>stagedFiles\<close> are
  sorted by \<open>netLines\<close>, descending: \<open>netLines\<close> of a file is at least \<open>netLines\<close> of the
  next one. The sort is stable: each list holds the files that the pass constructed for
  its area, and the files of any one value of \<open>netLines\<close> are in the order of their
  construction.
\<close>

theorem files_sorted_descending_stable:
  assumes "getLineStats env = Some stats"
  shows "(\<forall>i. Suc i < length (changesFiles stats) \<longrightarrow>
            netLines (changesFiles stats ! Suc i) \<le> netLines (changesFiles stats ! i))
     \<and> (\<forall>i. Suc i < length (stagedFiles stats) \<longrightarrow>
            netLines (stagedFiles stats ! Suc i) \<le> netLines (stagedFiles stats ! i))
     \<and> (error stats = None \<longrightarrow> git_status env = Inr files \<longrightarrow>
         git_diff env = Inr workingDiff \<longrightarrow>
         buildChanges env files workingDiff = Inr (ca, cd, cl) \<longrightarrow>
           mset (changesFiles stats) = mset cl
           \<and> filter (\<lambda>f. netLines f = k) (changesFiles stats) = filter (\<lambda>f. netLines f = k) cl)
     \<and> (error stats = None \<longrightarrow> git_status env = Inr files \<longrightarrow>
         git_diff_cached env = Inr stagedDiff \<longrightarrow>
         buildStaged env files stagedDiff = Inr (sa, sd, sl) \<longrightarrow>
           mset (stagedFiles stats) = mset sl
           \<and> filter (\<lambda>f. netLines f = k) (stagedFiles stats) = filter (\<lambda>f. netLines f = k) sl)"
proof -
  from getLineStats_cases [OF assms] consider
    (err) tag where "stats = errorStats tag"
  | (ok) workingDiff' files' ca' cd' cl' stagedDiff' sa' sd' sl' where
      "git_diff env = Inr workingDiff'" "git_status env = Inr files'"
      "buildChanges env files' workingDiff' = Inr (ca', cd', cl')"
      "git_diff_cached env = Inr stagedDiff'"
      "buildStaged env files' stagedDiff' = Inr (sa', sd', sl')"
      "stats = \<lparr>changesLinesAdded = ca', changesLinesDeleted = cd',
                 changesFiles = js_sort compareNet cl',
                 stagedLinesAdded = sa', stagedLinesDeleted = sd',
                 stagedFiles = js_sort compareNet sl', error = None\<rparr>"
    by blast
  then show ?thesis
  proof cases
    case err
    then show ?thesis by (simp add: errorStats_def)
  next
    case ok
    have c: "changesFiles stats = js_sort compareNet cl'"
      and s: "stagedFiles stats = js_sort compareNet sl'"
      using ok(6) by simp_all
    show ?thesis
    proof (intro conjI allI impI)
      fix i assume "Suc i < length (changesFiles stats)"
      then show "netLines (changesFiles stats ! Suc i) \<le> netLines (changesFiles stats ! i)"
        unfolding c by (rule adjacent_js_sort)
    next
      fix i assume "Suc i < length (stagedFiles stats)"
      then show "netLines (stagedFiles stats ! Suc i) \<le> netLines (stagedFiles stats ! i)"
        unfolding s by (rule adjacent_js_sort)
    next
      assume "git_status env = Inr files" "git_diff env = Inr workingDiff"
        "buildChanges env files workingDiff = Inr (ca, cd, cl)"
      with ok(1,2,3) have "cl = cl'" by simp
      then show "mset (changesFiles stats) = mset cl"
        and "filter (\<lambda>f. netLines f = k) (changesFiles stats) = filter (\<lambda>f. netLines f = k) cl"
        unfolding c by (simp_all add: mset_js_sort stable_js_sort)
    next
      assume "git_status env = Inr files" "git_diff_cached env = Inr stagedDiff"
        "buildStaged env files stagedDiff = Inr (sa, sd, sl)"
      with ok(2,4,5) have "sl = sl'" by simp
      then show "mset (stagedFiles stats) = mset sl"
        and "filter (\<lambda>f. netLines f = k) (stagedFiles stats) = filter (\<lambda>f. netLines f = k) sl"
        unfolding s by (simp_all add: mset_js_sort stable_js_sort)
    qed
  qed
qed

theorem files_sorted_descending_stable_witness:
  "getLineStats passEnv = Some passStats
   \<and> error passStats = None
   \<and> git_status passEnv = Inr passFiles
   \<and> git_diff passEnv = Inr passDiff
   \<and> buildChanges passEnv passFiles passDiff = Inr (16, 4, [fileA, fileB, fileC, fileNew])
   \<and> git_diff_cached passEnv = Inr passStagedDiff
   \<and> buildStaged passEnv passFiles passStagedDiff = Inr (5, 3, [fileS, fileImg])
   \<and> changesFiles passStats = [fileB, fileNew, fileA, fileC]
   \<and> map netLines (changesFiles passStats) = [8, 2, 1, 1]
   \<and> length (changesFiles passStats) = 4
   \<and> netLines (changesFiles passStats ! Suc 0) \<le> netLines (changesFiles passStats ! 0)
   \<and> netLines (changesFiles passStats ! Suc 1) \<le> netLines (changesFiles passStats ! 1)
   \<and> netLines (changesFiles passStats ! Suc 2) \<le> netLines (changesFiles passStats ! 2)
   \<and> length (stagedFiles passStats) = 2
   \<and> netLines (stagedFiles passStats ! Suc 0) \<le> netLines (stagedFiles passStats ! 0)
   \<and> filter (\<lambda>f. netLines f = 1) [fileA, fileB, fileC, fileNew] = [fileA, fileC]
   \<and> filter (\<lambda>f. netLines f = 1) (changesFiles passStats) = [fileA, fileC]
   \<and> mset (changesFiles passStats) = mset [fileA, fileB, fileC, fileNew]
   \<and> filter (\<lambda>f. netLines f = 1) (stagedFiles passStats)
       = filter (\<lambda>f. netLines f = 1) [fileS, fileImg]"
proof -
  have run: "getLineStats passEnv = Some passStats"
    by code_simp
  have ok: "error passStats = None"
    by (simp add: passStats_def)
  have st: "git_status passEnv = Inr passFiles"
    by (simp add: passEnv_def baseEnv_def)
  have wd: "git_diff passEnv = Inr passDiff"
    by (simp add: passEnv_def baseEnv_def)
  have ch: "buildChanges passEnv passFiles passDiff = Inr (16, 4, [fileA, fileB, fileC, fileNew])"
    by code_simp
  have sd: "git_diff_cached passEnv = Inr passStagedDiff"
    by (simp add: passEnv_def baseEnv_def)
  have sg: "buildStaged passEnv passFiles passStagedDiff = Inr (5, 3, [fileS, fileImg])"
    by code_simp
  have files: "changesFiles passStats = [fileB, fileNew, fileA, fileC]"
    by (simp add: passStats_def)
  have nets: "map netLines [fileB, fileNew, fileA, fileC] = [8, 2, 1, 1]"
    by (simp add: fileA_def fileB_def fileC_def fileNew_def)
  have before: "filter (\<lambda>f. netLines f = 1) [fileA, fileB, fileC, fileNew] = [fileA, fileC]"
    by (simp add: fileA_def fileB_def fileC_def fileNew_def)
  note sorted_stable = files_sorted_descending_stable [OF run,
      where files = passFiles and workingDiff = passDiff and ca = 16 and cd = 4
        and cl = "[fileA, fileB, fileC, fileNew]" and k = 1
        and stagedDiff = passStagedDiff and sa = 5 and sd = 3 and sl = "[fileS, fileImg]"]
  have len1: "length (changesFiles passStats) = 4"
    and len2: "length (stagedFiles passStats) = 2"
    by (simp_all add: passStats_def)
  from sorted_stable have all1: "\<forall>i. Suc i < length (changesFiles passStats) \<longrightarrow>
          netLines (changesFiles passStats ! Suc i) \<le> netLines (changesFiles passStats ! i)"
    and all2: "\<forall>i. Suc i < length (stagedFiles passStats) \<longrightarrow>
          netLines (stagedFiles passStats ! Suc i) \<le> netLines (stagedFiles passStats ! i)"
    by blast+
  have sorted1: "netLines (changesFiles passStats ! Suc 0) \<le> netLines (changesFiles passStats ! 0)"
    "netLines (changesFiles passStats ! Suc 1) \<le> netLines (changesFiles passStats ! 1)"
    "netLines (changesFiles passStats ! Suc 2) \<le> netLines (changesFiles passStats ! 2)"
    using all1 [rule_format, of 0] all1 [rule_format, of 1] all1 [rule_format, of 2] len1
    by simp_all
  have sorted2: "netLines (stagedFiles passStats ! Suc 0) \<le> netLines (stagedFiles passStats ! 0)"
    using all2 [rule_format, of 0] len2 by simp
  from sorted_stable ok st wd ch
  have stable1: "mset (changesFiles passStats) = mset [fileA, fileB, fileC, fileNew]"
    "filter (\<lambda>f. netLines f = 1) (changesFiles passStats)
      = filter (\<lambda>f. netLines f = 1) [fileA, fileB, fileC, fileNew]"
    by blast+
  from sorted_stable ok st sd sg
  have stable2: "filter (\<lambda>f. netLines f = 1) (stagedFiles passStats)
      = filter (\<lambda>f. netLines f = 1) [fileS, fileImg]"
    by blast
  show ?thesis
    using run ok st wd ch sd sg files nets len1 len2 sorted1 sorted2 before stable1 stable2
    by (simp only: simp_thms)
qed



section \<open>The counts of a diff line\<close>









section \<open>The status bar\<close>

lemma numberString_0: "numberString 0 = ''0''"
  by code_simp

lemma netLine_0: "netLine 0 0 0 = ''+0 (+0-0)''"
  by (simp add: netLine_def numberString_0)

lemma statusText_both:
  assumes "stagedLinesAdded stats - stagedLinesDeleted stats \<noteq> 0"
    and "changesLinesAdded stats - changesLinesDeleted stats \<noteq> 0"
  shows "statusText stats =
     icon @ ''Staged:''
       @ netLine (stagedLinesAdded stats - stagedLinesDeleted stats)
           (stagedLinesAdded stats) (stagedLinesDeleted stats)
       @ '', Changes:''
       @ netLine (changesLinesAdded stats - changesLinesDeleted stats)
           (changesLinesAdded stats) (changesLinesDeleted stats)
       @ '', Total:''
       @ netLine (changesLinesAdded stats - changesLinesDeleted stats
                  + (stagedLinesAdded stats - stagedLinesDeleted stats))
           (stagedLinesAdded stats + changesLinesAdded stats)
           (stagedLinesDeleted stats + changesLinesDeleted stats)"
  using assms by (simp add: statusText_def Let_def)

lemma statusText_staged_only:
  assumes "stagedLinesAdded stats - stagedLinesDeleted stats \<noteq> 0"
    and "changesLinesAdded stats - changesLinesDeleted stats = 0"
  shows "statusText stats =
     icon @ netLine (stagedLinesAdded stats - stagedLinesDeleted stats)
              (stagedLinesAdded stats) (stagedLinesDeleted stats)"
  using assms by (simp add: statusText_def Let_def)

lemma statusText_changes_only:
  assumes "stagedLinesAdded stats - stagedLinesDeleted stats = 0"
    and "changesLinesAdded stats - changesLinesDeleted stats \<noteq> 0"
  shows "statusText stats =
     icon @ netLine (changesLinesAdded stats - changesLinesDeleted stats)
              (changesLinesAdded stats) (changesLinesDeleted stats)"
  using assms by (simp add: statusText_def Let_def)

lemma statusText_clean:
  assumes "stagedLinesAdded stats - stagedLinesDeleted stats = 0"
    and "changesLinesAdded stats - changesLinesDeleted stats = 0"
  shows "statusText stats = icon @ ''Clean''"
  using assms by (simp add: statusText_def Let_def)

lemma render_success:
  assumes "error stats = None" and "\<not> isl (tooltipText env stats)"
  shows "render env (Some stats)
     = \<lparr>sb_text = statusText stats, sb_tooltip = projr (tooltipText env stats)\<rparr>"
  using assms by (cases "tooltipText env stats") (simp_all add: render_def)

lemma updateStatusBar_text:
  assumes "getLineStats env = Some stats" and "error stats = None"
    and "\<not> isl (tooltipText env stats)"
  shows "sb_text (updateStatusBar env) = statusText stats"
  using assms by (simp add: updateStatusBar_def render_success)

lemma tooltipText_no_files:
  assumes "changesFiles stats = []" and "stagedFiles stats = []"
    and "changesLinesAdded stats = 0" and "changesLinesDeleted stats = 0"
    and "stagedLinesAdded stats = 0" and "stagedLinesDeleted stats = 0"
  shows "tooltipText env stats
     = Inr ''Staged: +0 (+0-0)\<newline>\<newline>Changes: +0 (+0-0)\<newline>\<newline>Total: +0 (+0-0)''"
  using assms by (simp add: tooltipText_def andThen_def netLine_0 newline_def)

text \<open>
  Claim C3. After a successful pass in which the net of the staged area and the net of the
  unstaged area are both nonzero, the summary is the icon token followed by
  \<open>Staged:{net} (+{add}-{del})\<close>, then \<open>, Changes:{net} (+{add}-{del})\<close>, then
  \<open>, Total:{net} (+{add}-{del})\<close>, each net with a leading \<open>+\<close> when it is not negative.
  It is the text of the status bar unless building the tooltip throws.
\<close>

theorem summary_of_both_areas:
  assumes "getLineStats env = Some stats"
    and "error stats = None"
    and "stagedLinesAdded stats - stagedLinesDeleted stats \<noteq> 0"
    and "changesLinesAdded stats - changesLinesDeleted stats \<noteq> 0"
  defines "sn \<equiv> stagedLinesAdded stats - stagedLinesDeleted stats"
    and "cn \<equiv> changesLinesAdded stats - changesLinesDeleted stats"
  defines "summary \<equiv>
       ''Staged:'' @ (if 0 \<le> sn then ''+'' else []) @ numberString sn
         @ '' (+'' @ numberString (stagedLinesAdded stats)
         @ ''-'' @ numberString (stagedLinesDeleted stats) @ '')''
       @ '', Changes:'' @ (if 0 \<le> cn then ''+'' else []) @ numberString cn
         @ '' (+'' @ numberString (changesLinesAdded stats)
         @ ''-'' @ numberString (changesLinesDeleted stats) @ '')''
       @ '', Total:'' @ (if 0 \<le> cn + sn then ''+'' else []) @ numberString (cn + sn)
         @ '' (+'' @ numberString (stagedLinesAdded stats + changesLinesAdded stats)
         @ ''-'' @ numberString (stagedLinesDeleted stats + changesLinesDeleted stats) @ '')''"
  shows "statusText stats = ''$(git-commit) '' @ summary
     \<and> (\<not> isl (tooltipText env stats)
          \<longrightarrow> sb_text (updateStatusBar env) = ''$(git-commit) '' @ summary)"
proof -
  have "statusText stats = ''$(git-commit) '' @ summary"
    unfolding statusText_both [OF assms(3) assms(4)] summary_def sn_def cn_def
    by (simp add: icon_def netLine_def)
  with updateStatusBar_text [OF assms(1) assms(2)] show ?thesis by simp
qed

theorem summary_of_both_areas_witness:
  "getLineStats scenarioC = Some statsC
   \<and> error statsC = None
   \<and> stagedLinesAdded statsC - stagedLinesDeleted statsC = 2
   \<and> changesLinesAdded statsC - changesLinesDeleted statsC = 8
   \<and> \<not> isl (tooltipText scenarioC statsC)
   \<and> statusText statsC
       = ''$(git-commit) Staged:+2 (+5-3), Changes:+8 (+10-2), Total:+10 (+15-5)''
   \<and> sb_text (updateStatusBar scenarioC)
       = ''$(git-commit) Staged:+2 (+5-3), Changes:+8 (+10-2), Total:+10 (+15-5)''"
proof -
  have run: "getLineStats scenarioC = Some statsC"
    by code_simp
  have ok: "error statsC = None"
    by (simp add: statsC_def)
  have sn: "stagedLinesAdded statsC - stagedLinesDeleted statsC = 2"
    and cn: "changesLinesAdded statsC - changesLinesDeleted statsC = 8"
    by (simp_all add: statsC_def)
  have sn0: "stagedLinesAdded statsC - stagedLinesDeleted statsC \<noteq> 0"
    and cn0: "changesLinesAdded statsC - changesLinesDeleted statsC \<noteq> 0"
    by (simp_all add: sn cn)
  have tip: "\<not> isl (tooltipText scenarioC statsC)"
    by code_simp
  have numbers: "numberString 2 = ''2''" "numberString 3 = ''3''" "numberString 5 = ''5''"
    "numberString 8 = ''8''" "numberString 10 = ''10''" "numberString 15 = ''15''"
    by code_simp+
  have fields: "stagedLinesAdded statsC = 5" "stagedLinesDeleted statsC = 3"
    "changesLinesAdded statsC = 10" "changesLinesDeleted statsC = 2"
    by (simp_all add: statsC_def)
  from summary_of_both_areas [OF run ok sn0 cn0] tip
  have "statusText statsC
       = ''$(git-commit) Staged:+2 (+5-3), Changes:+8 (+10-2), Total:+10 (+15-5)''
     \<and> sb_text (updateStatusBar scenarioC)
       = ''$(git-commit) Staged:+2 (+5-3), Changes:+8 (+10-2), Total:+10 (+15-5)''"
    by (simp add: fields numbers)
  with run ok sn cn tip show ?thesis by (simp only: simp_thms)
qed

text \<open>
  Claim C4. After a successful pass in which exactly one of the two areas has a nonzero
  net, the summary is the icon token followed by \<open>{net} (+{added}-{deleted})\<close> of that
  area alone, the net with a leading \<open>+\<close> when it is not negative: no area label, no
  Total segment. It is the text of the status bar unless building the tooltip throws.
\<close>

theorem summary_of_single_area:
  assumes "getLineStats env = Some stats"
    and "error stats = None"
  defines "sn \<equiv> stagedLinesAdded stats - stagedLinesDeleted stats"
    and "cn \<equiv> changesLinesAdded stats - changesLinesDeleted stats"
  shows "(sn \<noteq> 0 \<and> cn = 0 \<longrightarrow>
           statusText stats =
             ''$(git-commit) '' @ (if 0 \<le> sn then ''+'' else []) @ numberString sn
               @ '' (+'' @ numberString (stagedLinesAdded stats)
               @ ''-'' @ numberString (stagedLinesDeleted stats) @ '')'')
     \<and> (sn = 0 \<and> cn \<noteq> 0 \<longrightarrow>
           statusText stats =
             ''$(git-commit) '' @ (if 0 \<le> cn then ''+'' else []) @ numberString cn
               @ '' (+'' @ numberString (changesLinesAdded stats)
               @ ''-'' @ numberString (changesLinesDeleted stats) @ '')'')
     \<and> (\<not> isl (tooltipText env stats)
          \<longrightarrow> sb_text (updateStatusBar env) = statusText stats)"
proof (intro conjI impI)
  assume "sn \<noteq> 0 \<and> cn = 0"
  then have "stagedLinesAdded stats - stagedLinesDeleted stats \<noteq> 0"
    and "changesLinesAdded stats - changesLinesDeleted stats = 0"
    by (simp_all add: sn_def cn_def)
  from statusText_staged_only [OF this]
  show "statusText stats =
      ''$(git-commit) '' @ (if 0 \<le> sn then ''+'' else []) @ numberString sn
        @ '' (+'' @ numberString (stagedLinesAdded stats)
        @ ''-'' @ numberString (stagedLinesDeleted stats) @ '')''"
    by (simp add: icon_def netLine_def sn_def)
next
  assume "sn = 0 \<and> cn \<noteq> 0"
  then have "stagedLinesAdded stats - stagedLinesDeleted stats = 0"
    and "changesLinesAdded stats - changesLinesDeleted stats \<noteq> 0"
    by (simp_all add: sn_def cn_def)
  from statusText_changes_only [OF this]
  show "statusText stats =
      ''$(git-commit) '' @ (if 0 \<le> cn then ''+'' else []) @ numberString cn
        @ '' (+'' @ numberString (changesLinesAdded stats)
        @ ''-'' @ numberString (changesLinesDeleted stats) @ '')''"
    by (simp add: icon_def netLine_def cn_def)
next
  assume "\<not> isl (tooltipText env stats)"
  with assms(1,2) show "sb_text (updateStatusBar env) = statusText stats"
    by (rule updateStatusBar_text)
qed

theorem summary_of_single_area_witness:
  "getLineStats scenarioB = Some statsB
   \<and> error statsB = None
   \<and> stagedLinesAdded statsB - stagedLinesDeleted statsB = 0
   \<and> changesLinesAdded statsB - changesLinesDeleted statsB = 10
   \<and> \<not> isl (tooltipText scenarioB statsB)
   \<and> statusText statsB = ''$(git-commit) +10 (+15-5)''
   \<and> sb_text (updateStatusBar scenarioB) = ''$(git-commit) +10 (+15-5)''"
proof -
  have run: "getLineStats scenarioB = Some statsB"
    by code_simp
  have ok: "error statsB = None"
    by (simp add: statsB_def)
  have sn: "stagedLinesAdded statsB - stagedLinesDeleted statsB = 0"
    and cn: "changesLinesAdded statsB - changesLinesDeleted statsB = 10"
    by (simp_all add: statsB_def)
  have tip: "\<not> isl (tooltipText scenarioB statsB)"
    by code_simp
  have numbers: "numberString 5 = ''5''" "numberString 10 = ''10''" "numberString 15 = ''15''"
    by code_simp+
  have fields: "changesLinesAdded statsB = 15" "changesLinesDeleted statsB = 5"
    by (simp_all add: statsB_def)
  from summary_of_single_area [OF run ok] sn cn tip
  have "statusText statsB = ''$(git-commit) +10 (+15-5)''
     \<and> sb_text (updateStatusBar scenarioB) = ''$(git-commit) +10 (+15-5)''"
    by (simp add: fields numbers)
  with run ok sn cn tip show ?thesis by (simp only: simp_thms)
qed

text \<open>
  Claim C5, as amended. After a successful pass in which both nets are 0, the summary is
  the icon token followed by the literal \<open>Clean\<close>, with no area and no Total segment.
  When moreover the pass found no file in either area (a clean repository), the tooltip is
  the three headers \<open>Staged: +0 (+0-0)\<close>, \<open>Changes: +0 (+0-0)\<close> and \<open>Total: +0 (+0-0)\<close>,
  with no file rows.
\<close>

theorem clean_summary_and_tooltip:
  assumes "getLineStats env = Some stats"
    and "error stats = None"
    and "stagedLinesAdded stats - stagedLinesDeleted stats = 0"
    and "changesLinesAdded stats - changesLinesDeleted stats = 0"
  shows "statusText stats = ''$(git-commit) Clean''
     \<and> (\<not> isl (tooltipText env stats)
          \<longrightarrow> sb_text (updateStatusBar env) = ''$(git-commit) Clean'')
     \<and> (changesFiles stats = [] \<and> stagedFiles stats = []
          \<longrightarrow> updateStatusBar env =
                \<lparr>sb_text = ''$(git-commit) Clean'',
                 sb_tooltip = ''Staged: +0 (+0-0)\<newline>\<newline>Changes: +0 (+0-0)\<newline>\<newline>Total: +0 (+0-0)''\<rparr>)"
proof (intro conjI impI)
  show summary: "statusText stats = ''$(git-commit) Clean''"
    using statusText_clean [OF assms(3) assms(4)] by (simp add: icon_def)
  {
    assume "\<not> isl (tooltipText env stats)"
    with updateStatusBar_text [OF assms(1) assms(2)] summary
    show "sb_text (updateStatusBar env) = ''$(git-commit) Clean''"
      by simp
  }
  assume "changesFiles stats = [] \<and> stagedFiles stats = []"
  then have none: "changesFiles stats = []" "stagedFiles stats = []"
    by simp_all
  with getLineStats_sums [OF assms(1)]
  have zero: "changesLinesAdded stats = 0" "changesLinesDeleted stats = 0"
    "stagedLinesAdded stats = 0" "stagedLinesDeleted stats = 0"
    by simp_all
  from tooltipText_no_files [OF none zero, of env] assms(1) assms(2) summary
  show "updateStatusBar env =
      \<lparr>sb_text = ''$(git-commit) Clean'',
       sb_tooltip = ''Staged: +0 (+0-0)\<newline>\<newline>Changes: +0 (+0-0)\<newline>\<newline>Total: +0 (+0-0)''\<rparr>"
    by (simp add: updateStatusBar_def render_def)
qed

theorem clean_summary_and_tooltip_witness:
  "getLineStats baseEnv = Some cleanStats
   \<and> error cleanStats = None
   \<and> stagedLinesAdded cleanStats - stagedLinesDeleted cleanStats = 0
   \<and> changesLinesAdded cleanStats - changesLinesDeleted cleanStats = 0
   \<and> \<not> isl (tooltipText baseEnv cleanStats)
   \<and> changesFiles cleanStats = [] \<and> stagedFiles cleanStats = []
   \<and> statusText cleanStats = ''$(git-commit) Clean''
   \<and> sb_text (updateStatusBar baseEnv) = ''$(git-commit) Clean''
   \<and> updateStatusBar baseEnv =
        \<lparr>sb_text = ''$(git-commit) Clean'',
         sb_tooltip = ''Staged: +0 (+0-0)\<newline>\<newline>Changes: +0 (+0-0)\<newline>\<newline>Total: +0 (+0-0)''\<rparr>"
proof -
  have run: "getLineStats baseEnv = Some cleanStats"
    by code_simp
  have ok: "error cleanStats = None"
    by (simp add: cleanStats_def)
  have sn: "stagedLinesAdded cleanStats - stagedLinesDeleted cleanStats = 0"
    and cn: "changesLinesAdded cleanStats - changesLinesDeleted cleanStats = 0"
    by (simp_all add: cleanStats_def)
  have tip: "\<not> isl (tooltipText baseEnv cleanStats)"
    by code_simp
  have none: "changesFiles cleanStats = []" "stagedFiles cleanStats = []"
    by (simp_all add: cleanStats_def)
  from clean_summary_and_tooltip [OF run ok sn cn] tip none
  have "statusText cleanStats = ''$(git-commit) Clean''
     \<and> sb_text (updateStatusBar baseEnv) = ''$(git-commit) Clean''
     \<and> updateStatusBar baseEnv =
        \<lparr>sb_text = ''$(git-commit) Clean'',
         sb_tooltip = ''Staged: +0 (+0-0)\<newline>\<newline>Changes: +0 (+0-0)\<newline>\<newline>Total: +0 (+0-0)''\<rparr>"
    by blast
  with run ok sn cn tip none show ?thesis by simp
qed

text \<open>
  Claim C5 as it was stated fails for a pass whose nets are 0 while lines changed: one
  unstaged file with 5 lines added and 5 deleted. The summary is \<open>Clean\<close>, and the tooltip
  has a header \<open>Changes: +0 (+5-5)\<close>, a file row and \<open>Total: +0 (+5-5)\<close>.
\<close>

theorem zero_net_tooltip_counterexample:
  "getLineStats balancedEnv = Some balancedStats
   \<and> error balancedStats = None
   \<and> stagedLinesAdded balancedStats - stagedLinesDeleted balancedStats = 0
   \<and> changesLinesAdded balancedStats - changesLinesDeleted balancedStats = 0
   \<and> updateStatusBar balancedEnv =
        \<lparr>sb_text = ''$(git-commit) Clean'',
         sb_tooltip = ''Staged: +0 (+0-0)\<newline>\<newline>Changes: +0 (+5-5)\<newline>  +0 (+5-5)=0 [Mod] f.ts\<newline>\<newline>Total: +0 (+5-5)''\<rparr>
   \<and> sb_tooltip (updateStatusBar balancedEnv)
       \<noteq> ''Staged: +0 (+0-0)\<newline>\<newline>Changes: +0 (+0-0)\<newline>\<newline>Total: +0 (+0-0)''"
proof -
  have run: "getLineStats balancedEnv = Some balancedStats"
    by code_simp
  have ok: "error balancedStats = None"
    and sn: "stagedLinesAdded balancedStats - stagedLinesDeleted balancedStats = 0"
    and cn: "changesLinesAdded balancedStats - changesLinesDeleted balancedStats = 0"
    by (simp_all add: balancedStats_def)
  have shown: "updateStatusBar balancedEnv =
        \<lparr>sb_text = ''$(git-commit) Clean'',
         sb_tooltip = ''Staged: +0 (+0-0)\<newline>\<newline>Changes: +0 (+5-5)\<newline>  +0 (+5-5)=0 [Mod] f.ts\<newline>\<newline>Total: +0 (+5-5)''\<rparr>"
    by code_simp
  have "sb_tooltip (updateStatusBar balancedEnv)
       \<noteq> ''Staged: +0 (+0-0)\<newline>\<newline>Changes: +0 (+0-0)\<newline>\<newline>Total: +0 (+0-0)''"
    unfolding shown by simp
  with run ok sn cn shown show ?thesis by (simp only: simp_thms)
qed

text \<open>
  Claim C6. The three error kinds give three distinct status texts. With no workspace
  root, the pass returns the state \<open>NO_WORKSPACE\<close> and the status bar shows
  \<open>Git: No workspace\<close>. With a root that is not a repository, it returns the state
  \<open>NO_REPO\<close> and the status bar shows \<open>Git: No repo\<close>. An exception of any step of the
  collection (opening the repository, the repository check, either diff, the status
  listing) makes the pass return null, and the status bar shows \<open>Git: Error\<close>. The
  LineStats of the first two cases has zero sums and empty file lists.
\<close>

theorem error_states_and_texts:
  "(rootPath env = None \<longrightarrow>
      getLineStats env = Some (errorStats NO_WORKSPACE)
      \<and> sb_text (updateStatusBar env) = ''$(git-commit) Git: No workspace'')
   \<and> (rootPath env = Some root \<and> simpleGit env root = Inr () \<and> checkIsRepo env = Inr False \<longrightarrow>
      getLineStats env = Some (errorStats NO_REPO)
      \<and> sb_text (updateStatusBar env) = ''$(git-commit) Git: No repo'')
   \<and> (rootPath env = Some root
       \<and> (isl (simpleGit env root) \<or> isl (checkIsRepo env)
           \<or> checkIsRepo env = Inr True
             \<and> (isl (git_diff env) \<or> isl (git_status env) \<or> isl (git_diff_cached env))) \<longrightarrow>
      getLineStats env = None
      \<and> sb_text (updateStatusBar env) = ''$(git-commit) Git: Error'')
   \<and> errorStats tag =
        \<lparr>changesLinesAdded = 0, changesLinesDeleted = 0, changesFiles = [],
         stagedLinesAdded = 0, stagedLinesDeleted = 0, stagedFiles = [], error = Some tag\<rparr>
   \<and> distinct [''$(git-commit) Git: No workspace'', ''$(git-commit) Git: No repo'',
                ''$(git-commit) Git: Error'']"
proof (intro conjI impI)
  assume "rootPath env = None"
  then show "getLineStats env = Some (errorStats NO_WORKSPACE)"
    by (rule getLineStats_no_root)
  then show "sb_text (updateStatusBar env) = ''$(git-commit) Git: No workspace''"
    by (simp add: updateStatusBar_def render_def errorStats_def icon_def)
next
  assume "rootPath env = Some root \<and> simpleGit env root = Inr () \<and> checkIsRepo env = Inr False"
  then show "getLineStats env = Some (errorStats NO_REPO)"
    by (simp add: getLineStats_no_repo)
  then show "sb_text (updateStatusBar env) = ''$(git-commit) Git: No repo''"
    by (simp add: updateStatusBar_def render_def errorStats_def icon_def)
next
  assume a: "rootPath env = Some root
       \<and> (isl (simpleGit env root) \<or> isl (checkIsRepo env)
           \<or> checkIsRepo env = Inr True
             \<and> (isl (git_diff env) \<or> isl (git_status env) \<or> isl (git_diff_cached env)))"
  show null: "getLineStats env = None"
  proof (rule ccontr)
    assume "getLineStats env \<noteq> None"
    then obtain stats where "getLineStats env = Some stats" by blast
    from getLineStats_cases [OF this] a show False by auto
  qed
  then show "sb_text (updateStatusBar env) = ''$(git-commit) Git: Error''"
    by (simp add: updateStatusBar_def render_def icon_def)
next
  show "errorStats tag =
        \<lparr>changesLinesAdded = 0, changesLinesDeleted = 0, changesFiles = [],
         stagedLinesAdded = 0, stagedLinesDeleted = 0, stagedFiles = [], error = Some tag\<rparr>"
    by (simp add: errorStats_def)
next
  show "distinct [''$(git-commit) Git: No workspace'', ''$(git-commit) Git: No repo'',
                ''$(git-commit) Git: Error'']"
    by simp
qed

theorem error_states_and_texts_witness:
  "(rootPath noWorkspaceEnv = None
      \<and> getLineStats noWorkspaceEnv = Some (errorStats NO_WORKSPACE)
      \<and> sb_text (updateStatusBar noWorkspaceEnv) = ''$(git-commit) Git: No workspace'')
   \<and> (rootPath noRepoEnv = Some ''/w'' \<and> simpleGit noRepoEnv ''/w'' = Inr ()
      \<and> checkIsRepo noRepoEnv = Inr False
      \<and> getLineStats noRepoEnv = Some (errorStats NO_REPO)
      \<and> sb_text (updateStatusBar noRepoEnv) = ''$(git-commit) Git: No repo'')
   \<and> (rootPath failingEnv = Some ''/w'' \<and> checkIsRepo failingEnv = Inr True
      \<and> isl (git_status failingEnv)
      \<and> getLineStats failingEnv = None
      \<and> sb_text (updateStatusBar failingEnv) = ''$(git-commit) Git: Error'')"
proof -
  have w: "rootPath noWorkspaceEnv = None"
    by (simp add: noWorkspaceEnv_def baseEnv_def rootPath_def)
  have r: "rootPath noRepoEnv = Some ''/w''" "simpleGit noRepoEnv ''/w'' = Inr ()"
    "checkIsRepo noRepoEnv = Inr False"
    by (simp_all add: noRepoEnv_def baseEnv_def rootPath_def)
  have f: "rootPath failingEnv = Some ''/w''" "checkIsRepo failingEnv = Inr True"
    "isl (git_status failingEnv)"
    by (simp_all add: failingEnv_def baseEnv_def rootPath_def)
  from error_states_and_texts [of noWorkspaceEnv] w
  have "getLineStats noWorkspaceEnv = Some (errorStats NO_WORKSPACE)
      \<and> sb_text (updateStatusBar noWorkspaceEnv) = ''$(git-commit) Git: No workspace''"
    by blast
  moreover from error_states_and_texts [of noRepoEnv "''/w''"] r
  have "getLineStats noRepoEnv = Some (errorStats NO_REPO)
      \<and> sb_text (updateStatusBar noRepoEnv) = ''$(git-commit) Git: No repo''"
    by blast
  moreover from error_states_and_texts [of failingEnv "''/w''"] f
  have "getLineStats failingEnv = None
      \<and> sb_text (updateStatusBar failingEnv) = ''$(git-commit) Git: Error''"
    by blast
  ultimately show ?thesis using w r f by (simp only: simp_thms)
qed

end
